theory Spec2Isabelle
  imports Complex_Main
begin

section \<open>Numbers of the simulator\<close>

text \<open>
  Every number the simulator handles is a Python or numpy double. The model keeps the
  special values of a double apart (\<open>NaN\<close>, which pandas also uses as its marker of a
  missing cell, and the two infinities). Comparisons of doubles are exact and are
  modelled as they are. Sums, differences, products and quotients of finite values are
  computed with exact real arithmetic: the rounding of their results to the nearest
  double and the sign of a zero are left out, and so is their overflow, which prices,
  weights and cash of any practical size do not reach. The power does leave the range of
  the doubles on ordinary inputs, its exponent being \<open>252 / len(data)\<close>, and its
  overflow to infinity is modelled. Dividing by zero is what numpy does on a double, a
  quotient that is infinite or \<open>NaN\<close>, and never an exception.

  Statements that depend on the last binary place of a result are therefore made about
  the values as the operations below return them, and not about real numbers.
\<close>

datatype f64 = Fin real | PInf | NInf | NaN

definition isnan :: "f64 \<Rightarrow> bool" where
  "isnan x = (case x of NaN \<Rightarrow> True | _ \<Rightarrow> False)"

definition inf_of :: "real \<Rightarrow> f64" where
  "inf_of s = (if 0 < s then PInf else if s < 0 then NInf else NaN)"

fun sign_of :: "f64 \<Rightarrow> real" where
  "sign_of (Fin x) = sgn x"
| "sign_of PInf = 1"
| "sign_of NInf = - 1"
| "sign_of NaN = 0"

fun f_neg :: "f64 \<Rightarrow> f64" where
  "f_neg (Fin x) = Fin (- x)"
| "f_neg PInf = NInf"
| "f_neg NInf = PInf"
| "f_neg NaN = NaN"

fun f_add :: "f64 \<Rightarrow> f64 \<Rightarrow> f64" where
  "f_add (Fin x) (Fin y) = Fin (x + y)"
| "f_add NaN _ = NaN"
| "f_add _ NaN = NaN"
| "f_add PInf NInf = NaN"
| "f_add NInf PInf = NaN"
| "f_add (Fin x) b = b"
| "f_add a _ = a"

definition f_sub :: "f64 \<Rightarrow> f64 \<Rightarrow> f64" where
  "f_sub a b = f_add a (f_neg b)"

fun f_mul :: "f64 \<Rightarrow> f64 \<Rightarrow> f64" where
  "f_mul (Fin x) (Fin y) = Fin (x * y)"
| "f_mul NaN _ = NaN"
| "f_mul _ NaN = NaN"
| "f_mul a b = inf_of (sign_of a * sign_of b)"

fun f_div :: "f64 \<Rightarrow> f64 \<Rightarrow> f64" where
  "f_div (Fin x) (Fin y) = (if y = 0 then inf_of x else Fin (x / y))"
| "f_div NaN _ = NaN"
| "f_div _ NaN = NaN"
| "f_div (Fin x) _ = Fin 0"
| "f_div a (Fin y) = inf_of (sign_of a * (if y < 0 then - 1 else 1))"
| "f_div _ _ = NaN"

text \<open>The comparisons of doubles: each one is false as soon as an operand is \<open>NaN\<close>.\<close>

fun f_less :: "f64 \<Rightarrow> f64 \<Rightarrow> bool" where
  "f_less (Fin x) (Fin y) = (x < y)"
| "f_less NaN _ = False"
| "f_less _ NaN = False"
| "f_less NInf b = (b \<noteq> NInf)"
| "f_less a PInf = (a \<noteq> PInf)"
| "f_less _ _ = False"

definition f_le :: "f64 \<Rightarrow> f64 \<Rightarrow> bool" where
  "f_le a b = (\<not> isnan a \<and> \<not> isnan b \<and> (a = b \<or> f_less a b))"

text \<open>\<open>np.sqrt\<close> on a double.\<close>

fun f_sqrt :: "f64 \<Rightarrow> f64" where
  "f_sqrt (Fin x) = (if x < 0 then NaN else Fin (sqrt x))"
| "f_sqrt PInf = PInf"
| "f_sqrt NInf = NaN"
| "f_sqrt NaN = NaN"

text \<open>
  A real number past the range of the doubles becomes an infinity: every real of
  magnitude \<open>2 ^ 1024 - 2 ^ 970\<close> or more, the midpoint between the greatest double
  and \<open>2 ^ 1024\<close>, rounds to one.
\<close>

definition double_bound :: real where
  "double_bound = 2 ^ 1024 - 2 ^ 970"

definition to_double :: "real \<Rightarrow> f64" where
  "to_double x = (if double_bound \<le> \<bar>x\<bar> then inf_of x else Fin x)"

text \<open>
  \<open>base ** e\<close> for a double base and a finite exponent \<open>e\<close> (the only exponent of the
  simulator is the quotient \<open>252 / len(data)\<close>, which is positive). A negative base has a
  power only when the exponent is a whole number; numpy answers \<open>NaN\<close> otherwise. A
  power past the range of the doubles is infinite.
\<close>

definition f_pow :: "f64 \<Rightarrow> real \<Rightarrow> f64" where
  "f_pow b e =
     (if e = 0 then Fin 1
      else case b of
        NaN \<Rightarrow> NaN
      | Fin x \<Rightarrow>
          (if 0 < x then to_double (x powr e)
           else if x = 0 then (if 0 < e then Fin 0 else PInf)
           else if e = of_int \<lfloor>e\<rfloor> then to_double (x powi \<lfloor>e\<rfloor>)
           else NaN)
      | PInf \<Rightarrow> (if 0 < e then PInf else Fin 0)
      | NInf \<Rightarrow>
          (if e = of_int \<lfloor>e\<rfloor> \<and> odd \<lfloor>e\<rfloor> then (if 0 < e then NInf else Fin 0)
           else if 0 < e then PInf else Fin 0))"

section \<open>Tables and series\<close>

text \<open>
  A pandas \<open>DataFrame\<close> of closing prices: the column labels in the order the table
  holds them, and one row per date with one cell per column, a missing price being
  \<open>NaN\<close>. A \<open>Series\<close> is a list of dated values.
\<close>

type_synonym date = nat

record frame =
  columns :: "string list"
  rows :: "(date \<times> f64 list) list"

type_synonym series = "(date \<times> f64) list"

definition wf_frame :: "frame \<Rightarrow> bool" where
  "wf_frame f = (distinct (columns f) \<and>
     list_all (\<lambda>r. length (snd r) = length (columns f)) (rows f))"

text \<open>What a call that may raise gives back: \<open>yf.download(...)["Close"]\<close>.\<close>

datatype 'a download = Raised | Returned 'a

text \<open>
  The failures of the program. The first group are the messages the methods print
  before they return without a result, under the names the specification gives them;
  the second group are the Python exceptions that no method catches.
\<close>

datatype error =
    NoTickers             \<comment> \<open>"Error: No stocks entered yet! Run get_user_input() first."\<close>
  | EmptyData             \<comment> \<open>"Error: No valid data returned for these tickers!"\<close>
  | MissingSymbolData     \<comment> \<open>"Error: Some tickers have no data!"\<close>
  | InsufficientHistory   \<comment> \<open>"Error: Not enough data points to analyze!"\<close>
  | DataFetchError        \<comment> \<open>"Error fetching data: ..."\<close>
  | NoData                \<comment> \<open>"Error: No data available! Run fetch_data() first."\<close>
  | NotSimulated          \<comment> \<open>"Error: Run simulate_portfolio() first!"\<close>
  | KeyError | IndexError | ValueError | TypeError | ZeroDivisionError

record simulator =
  initial_cash :: f64
  tickers :: "string list"
  weights :: "f64 list"
  data :: "frame option"
  portfolio_value :: "series option"
  sharpe_ratio :: "f64 option"
  best_stock :: "string option"
  worst_stock :: "string option"

subsection \<open>The pandas operations the program calls\<close>

definition empty_frame :: "frame \<Rightarrow> bool" where
  \<comment> \<open>\<open>DataFrame.empty\<close>: some axis has length 0\<close>
  "empty_frame f = (columns f = [] \<or> rows f = [])"

definition isna_all_any :: "frame \<Rightarrow> bool" where
  \<comment> \<open>\<open>data.isna().all().any()\<close>: some column is missing on every date\<close>
  "isna_all_any f =
     list_ex (\<lambda>j. list_all (\<lambda>r. isnan (snd r ! j)) (rows f)) [0..<length (columns f)]"

definition complete_row :: "date \<times> f64 list \<Rightarrow> bool" where
  "complete_row r = (\<not> list_ex isnan (snd r))"

definition dropna_frame :: "frame \<Rightarrow> frame" where
  \<comment> \<open>\<open>DataFrame.dropna()\<close>: a row with a missing cell goes, the others stay in order\<close>
  "dropna_frame f = f\<lparr>rows := filter complete_row (rows f)\<rparr>"

section \<open>fetch_data\<close>

text \<open>
  \<open>fetch_data\<close> with the answer of the price source as a parameter. It gives back the
  message it printed, if any, and the simulator it leaves behind: every failure after
  the download clears \<open>data\<close>.
\<close>

definition fetch_data :: "simulator \<Rightarrow> frame download \<Rightarrow> error option \<times> simulator" where
  "fetch_data s dl =
     (if tickers s = [] then (Some NoTickers, s)
      else case dl of
        Raised \<Rightarrow> (Some DataFetchError, s\<lparr>data := None\<rparr>)
      | Returned f \<Rightarrow>
          if empty_frame f then (Some EmptyData, s\<lparr>data := None\<rparr>)
          else if isna_all_any f then (Some MissingSymbolData, s\<lparr>data := None\<rparr>)
          else let g = dropna_frame f in
            if length (rows g) < 2 then (Some InsufficientHistory, s\<lparr>data := None\<rparr>)
            else (None, s\<lparr>data := Some g\<rparr>))"

section \<open>simulate_portfolio\<close>

text \<open>An exception ends the method: the rest runs only on a value.\<close>

fun bind_e :: "error + 'a \<Rightarrow> ('a \<Rightarrow> error + 'b) \<Rightarrow> error + 'b" where
  "bind_e (Inl e) k = Inl e"
| "bind_e (Inr x) k = k x"

fun traverse_e :: "('a \<Rightarrow> error + 'b) \<Rightarrow> 'a list \<Rightarrow> error + 'b list" where
  \<comment> \<open>a list comprehension whose element expression may raise\<close>
  "traverse_e g [] = Inr []"
| "traverse_e g (x # xs) =
     bind_e (g x) (\<lambda>y. bind_e (traverse_e g xs) (\<lambda>ys. Inr (y # ys)))"

fun index_of :: "'a list \<Rightarrow> 'a \<Rightarrow> nat option" where
  "index_of [] a = None"
| "index_of (x # xs) a =
     (if x = a then Some 0 else map_option Suc (index_of xs a))"

definition column :: "frame \<Rightarrow> string \<Rightarrow> error + series" where
  \<comment> \<open>\<open>data[ticker]\<close>: the column with that label, \<open>KeyError\<close> without one\<close>
  "column f t =
     (case index_of (columns f) t of
        None \<Rightarrow> Inl KeyError
      | Some j \<Rightarrow> Inr (map (\<lambda>r. (fst r, snd r ! j)) (rows f)))"

definition iloc_first :: "series \<Rightarrow> error + f64" where
  \<comment> \<open>\<open>.iloc[0]\<close>\<close>
  "iloc_first s = (case s of [] \<Rightarrow> Inl IndexError | x # _ \<Rightarrow> Inr (snd x))"

definition iloc_last :: "series \<Rightarrow> error + f64" where
  \<comment> \<open>\<open>.iloc[-1]\<close>\<close>
  "iloc_last s = (if s = [] then Inl IndexError else Inr (snd (last s)))"

definition f_sum :: "f64 list \<Rightarrow> f64" where
  "f_sum xs = foldr f_add xs (Fin 0)"

definition nansum :: "f64 list \<Rightarrow> f64" where
  \<comment> \<open>a pandas sum: missing values are skipped\<close>
  "nansum xs = f_sum (filter (\<lambda>x. \<not> isnan x) xs)"

definition mul_frame :: "frame \<Rightarrow> f64 list \<Rightarrow> error + frame" where
  \<comment> \<open>\<open>data * shares\<close> for a list: the list is laid over the columns by position\<close>
  "mul_frame f xs =
     (if length xs \<noteq> length (columns f) then Inl ValueError
      else Inr (f\<lparr>rows := map (\<lambda>r. (fst r, map2 f_mul (snd r) xs)) (rows f)\<rparr>))"

definition sum_axis1 :: "frame \<Rightarrow> series" where
  \<comment> \<open>\<open>.sum(axis=1)\<close>\<close>
  "sum_axis1 f = map (\<lambda>r. (fst r, nansum (snd r))) (rows f)"

fun pct_from :: "f64 \<Rightarrow> series \<Rightarrow> series" where
  "pct_from prev [] = []"
| "pct_from prev (x # xs) =
     (fst x, f_sub (f_div (snd x) prev) (Fin 1)) # pct_from (snd x) xs"

definition pct_change :: "series \<Rightarrow> series" where
  \<comment> \<open>\<open>.pct_change()\<close> on a series without missing values: \<open>v / v.shift(1) - 1\<close>\<close>
  "pct_change s = (case s of [] \<Rightarrow> [] | x # xs \<Rightarrow> (fst x, NaN) # pct_from (snd x) xs)"

definition dropna :: "series \<Rightarrow> series" where
  "dropna s = filter (\<lambda>x. \<not> isnan (snd x)) s"

definition std :: "series \<Rightarrow> f64" where
  \<comment> \<open>\<open>Series.std()\<close>: the sample standard deviation, one degree of freedom taken off\<close>
  "std s =
     (let vs = filter (\<lambda>x. \<not> isnan x) (map snd s); n = length vs in
      if n \<le> 1 then NaN
      else
        let avg = f_div (f_sum vs) (Fin (real n));
            sqr = map (\<lambda>x. f_mul (f_sub avg x) (f_sub avg x)) vs
        in f_sqrt (f_div (f_sum sqr) (Fin (real n - 1))))"

text \<open>
  \<open>np.argmax\<close> and \<open>np.argmin\<close> as numpy's loops run: the index moves only to a value
  the comparison does not accept, so the first of several equal extremes keeps it, and a
  \<open>NaN\<close> takes it and ends the loop.
\<close>

fun argmax_loop :: "f64 \<Rightarrow> nat \<Rightarrow> nat \<Rightarrow> f64 list \<Rightarrow> nat" where
  "argmax_loop mp k i [] = k"
| "argmax_loop mp k i (x # xs) =
     (if \<not> f_le x mp then (if isnan x then i else argmax_loop x i (Suc i) xs)
      else argmax_loop mp k (Suc i) xs)"

definition argmax :: "f64 list \<Rightarrow> error + nat" where
  "argmax xs =
     (case xs of
        [] \<Rightarrow> Inl ValueError
      | x # r \<Rightarrow> Inr (if isnan x then 0 else argmax_loop x 0 1 r))"

fun argmin_loop :: "f64 \<Rightarrow> nat \<Rightarrow> nat \<Rightarrow> f64 list \<Rightarrow> nat" where
  "argmin_loop mp k i [] = k"
| "argmin_loop mp k i (x # xs) =
     (if \<not> f_le mp x then (if isnan x then i else argmin_loop x i (Suc i) xs)
      else argmin_loop mp k (Suc i) xs)"

definition argmin :: "f64 list \<Rightarrow> error + nat" where
  "argmin xs =
     (case xs of
        [] \<Rightarrow> Inl ValueError
      | x # r \<Rightarrow> Inr (if isnan x then 0 else argmin_loop x 0 1 r))"

subsection \<open>The statements of the method\<close>

definition shares_of :: "simulator \<Rightarrow> frame \<Rightarrow> error + f64 list" where
  "shares_of s f =
     traverse_e
       (\<lambda>wt. bind_e (column f (snd wt)) (\<lambda>c. bind_e (iloc_first c) (\<lambda>p.
          Inr (f_div (f_mul (initial_cash s) (fst wt)) p))))
       (zip (weights s) (tickers s))"

definition value_series :: "frame \<Rightarrow> f64 list \<Rightarrow> error + series" where
  "value_series f sh = bind_e (mul_frame f sh) (\<lambda>g. Inr (sum_axis1 g))"

definition daily_returns_of :: "series \<Rightarrow> series" where
  "daily_returns_of pv = dropna (pct_change pv)"

definition total_return_of :: "simulator \<Rightarrow> series \<Rightarrow> error + f64" where
  "total_return_of s pv =
     bind_e (iloc_last pv) (\<lambda>v. Inr (f_div (f_sub v (initial_cash s)) (initial_cash s)))"

definition annual_return_of :: "f64 \<Rightarrow> nat \<Rightarrow> error + f64" where
  \<comment> \<open>the second argument is \<open>len(self.data)\<close>; \<open>252 / 0\<close> on Python integers raises\<close>
  "annual_return_of tr n =
     (if n = 0 then Inl ZeroDivisionError
      else Inr (f_sub (f_pow (f_add (Fin 1) tr) (252 / real n)) (Fin 1)))"

definition annual_vol_of :: "series \<Rightarrow> f64" where
  "annual_vol_of dr = f_mul (std dr) (f_sqrt (Fin 252))"

definition risk_free_rate :: f64 where
  "risk_free_rate = Fin (2 / 100)"

definition sharpe_of :: "f64 \<Rightarrow> f64 \<Rightarrow> f64" where
  "sharpe_of ar vol =
     (if f_less (Fin 0) vol then f_div (f_sub ar risk_free_rate) vol else Fin 0)"

definition individual_return :: "frame \<Rightarrow> string \<Rightarrow> error + f64" where
  "individual_return f t =
     bind_e (column f t) (\<lambda>c. bind_e (iloc_last c) (\<lambda>pl.
     bind_e (column f t) (\<lambda>c'. bind_e (iloc_first c') (\<lambda>pf.
       Inr (f_mul (f_sub (f_div pl pf) (Fin 1)) (Fin 100))))))"

text \<open>Everything the method computes, the values it keeps only in local variables too.\<close>

record locals =
  shares :: "f64 list"
  portfolio :: series
  daily_returns :: series
  total_return :: f64
  annual_return :: f64
  annual_vol :: f64
  sharpe :: f64
  individual_returns :: "f64 list"
  best :: string
  worst :: string

definition simulate_locals :: "simulator \<Rightarrow> error + locals" where
  "simulate_locals s =
     (case data s of
        None \<Rightarrow> Inl NoData
      | Some f \<Rightarrow>
          bind_e (shares_of s f) (\<lambda>sh.
          bind_e (value_series f sh) (\<lambda>pv.
          let dr = daily_returns_of pv in
          bind_e (total_return_of s pv) (\<lambda>tr.
          bind_e (annual_return_of tr (length (rows f))) (\<lambda>ar.
          let vol = annual_vol_of dr in
          bind_e (traverse_e (individual_return f) (tickers s)) (\<lambda>irs.
          bind_e (argmax irs) (\<lambda>bi.
          bind_e (argmin irs) (\<lambda>wi.
            Inr \<lparr>shares = sh, portfolio = pv, daily_returns = dr, total_return = tr,
                 annual_return = ar, annual_vol = vol, sharpe = sharpe_of ar vol,
                 individual_returns = irs, best = tickers s ! bi,
                 worst = tickers s ! wi\<rparr>))))))))"

text \<open>
  The method itself stores four of these values in the simulator. Without data it prints
  its message and returns; an exception leaves the program, so no simulator comes back.
\<close>

definition simulate_portfolio :: "simulator \<Rightarrow> error + simulator" where
  "simulate_portfolio s =
     bind_e (simulate_locals s) (\<lambda>l.
       Inr (s\<lparr>portfolio_value := Some (portfolio l), sharpe_ratio := Some (sharpe l),
              best_stock := Some (best l), worst_stock := Some (worst l)\<rparr>))"

section \<open>compare_to_benchmark and display_and_save_results\<close>

text \<open>
  The benchmark's download is a parameter again. Every exception inside the method's
  \<open>try\<close> is caught and answered with \<open>None\<close>: the download raising, and \<open>.iloc[0]\<close>
  on a download without rows.
\<close>

definition compare_to_benchmark :: "simulator \<Rightarrow> series download \<Rightarrow> series option" where
  "compare_to_benchmark s dl =
     (if data s = None then None
      else case dl of
        Raised \<Rightarrow> None
      | Returned b \<Rightarrow>
          (case iloc_first b of
             Inl e \<Rightarrow> None
           | Inr p0 \<Rightarrow>
               Some (map (\<lambda>x. (fst x, f_mul (f_div (snd x) p0) (initial_cash s))) b)))"

fun cummax_from :: "f64 option \<Rightarrow> f64 list \<Rightarrow> f64 list" where
  \<comment> \<open>\<open>.cummax()\<close>: the greatest value so far, a missing value staying missing\<close>
  "cummax_from m [] = []"
| "cummax_from m (x # xs) =
     (if isnan x then NaN # cummax_from m xs
      else let m' = (case m of None \<Rightarrow> x | Some y \<Rightarrow> if f_less y x then x else y)
           in m' # cummax_from (Some m') xs)"

definition cummax :: "f64 list \<Rightarrow> f64 list" where
  "cummax xs = cummax_from None xs"

fun nanmax_from :: "f64 \<Rightarrow> f64 list \<Rightarrow> f64" where
  "nanmax_from m [] = m"
| "nanmax_from m (x # xs) =
     nanmax_from (if isnan x then m else if isnan m \<or> f_less m x then x else m) xs"

definition nanmax :: "f64 list \<Rightarrow> f64" where
  \<comment> \<open>\<open>.max()\<close>: the greatest value that is not missing, \<open>NaN\<close> when there is none\<close>
  "nanmax xs = nanmax_from NaN xs"

definition max_drawdown_of :: "series \<Rightarrow> f64" where
  "max_drawdown_of pv =
     (let vs = map snd pv; pk = cummax vs
      in nanmax (map2 f_div (map2 f_sub pk vs) pk))"

text \<open>
  What the method shows: the figures it prints (before the factor 100 and the rounding
  to two places of the format), the lines of the plot and the series it writes to the
  file. The simulator is not changed.
\<close>

record results =
  final_value :: f64
  shown_total_return :: f64
  shown_annual_return :: f64
  shown_annual_vol :: f64
  shown_max_drawdown :: f64
  shown_sharpe :: f64
  shown_best :: "string option"
  shown_worst :: "string option"
  plot_portfolio :: series
  plot_benchmark :: "series option"
  csv :: series

definition display_and_save_results :: "simulator \<Rightarrow> series download \<Rightarrow> error + results" where
  "display_and_save_results s dl =
     (case portfolio_value s of
        None \<Rightarrow> Inl NotSimulated
      | Some pv \<Rightarrow>
          bind_e (total_return_of s pv) (\<lambda>tr.
          let dr = daily_returns_of pv in
          bind_e (case data s of None \<Rightarrow> Inl TypeError
                  | Some f \<Rightarrow> annual_return_of tr (length (rows f))) (\<lambda>ar.
          let vol = annual_vol_of dr; mdd = max_drawdown_of pv in
          bind_e (iloc_last pv) (\<lambda>fv.
          bind_e (case sharpe_ratio s of None \<Rightarrow> Inl TypeError | Some x \<Rightarrow> Inr x) (\<lambda>sr.
            Inr \<lparr>final_value = fv, shown_total_return = tr, shown_annual_return = ar,
                 shown_annual_vol = vol, shown_max_drawdown = mdd, shown_sharpe = sr,
                 shown_best = best_stock s, shown_worst = worst_stock s,
                 plot_portfolio = pv, plot_benchmark = compare_to_benchmark s dl,
                 csv = pv\<rparr>)))))"

section \<open>Inputs for the examples\<close>

text \<open>
  The end-to-end example of the specification: two symbols at half the cash each, two
  dates.
\<close>

definition ex_frame :: frame where
  "ex_frame = \<lparr>columns = [''A'', ''B''],
     rows = [(0, [Fin 100, Fin 50]), (1, [Fin 110, Fin 55])]\<rparr>"

definition ex_sim :: simulator where
  "ex_sim = \<lparr>initial_cash = Fin 1000, tickers = [''A'', ''B''],
     weights = [Fin (1 / 2), Fin (1 / 2)], data = Some ex_frame,
     portfolio_value = None, sharpe_ratio = None, best_stock = None, worst_stock = None\<rparr>"

text \<open>A download with a gap on one date, and one in which a symbol has no price at all.\<close>

definition raw_frame :: frame where
  "raw_frame = \<lparr>columns = [''A'', ''B''],
     rows = [(0, [Fin 100, Fin 50]), (1, [NaN, Fin 52]), (2, [Fin 110, Fin 55])]\<rparr>"

definition gap_frame :: frame where
  "gap_frame = \<lparr>columns = [''A'', ''B''],
     rows = [(0, [Fin 100, NaN]), (1, [Fin 110, NaN]), (2, [Fin 120, NaN])]\<rparr>"

section \<open>Notions of the specification\<close>

text \<open>
  \<open>price[date][symbol]\<close>: the cell of the row at a position in the column that carries
  the symbol's label.
\<close>

definition price :: "frame \<Rightarrow> nat \<Rightarrow> string \<Rightarrow> f64" where
  "price f i t =
     (case index_of (columns f) t of None \<Rightarrow> NaN | Some j \<Rightarrow> snd (rows f ! i) ! j)"

text \<open>The example with a price of zero for A on the first date.\<close>

definition zero_frame :: frame where
  "zero_frame = \<lparr>columns = [''A'', ''B''],
     rows = [(0, [Fin 0, Fin 50]), (1, [Fin 110, Fin 55])]\<rparr>"

definition zero_sim :: simulator where
  "zero_sim = ex_sim\<lparr>data := Some zero_frame\<rparr>"

text \<open>
  The data model of the specification. A positive number is finite and greater than
  zero. A request has a positive cash, positive weights and one weight per ticker; a
  cleaned table is rectangular, has at least two dates and a positive price in every
  cell; it serves a request when it has one column per ticker and a column for each.
\<close>

definition pos :: "f64 \<Rightarrow> bool" where
  "pos x = (case x of Fin v \<Rightarrow> 0 < v | _ \<Rightarrow> False)"

definition valid_request :: "simulator \<Rightarrow> bool" where
  "valid_request s = (pos (initial_cash s) \<and> list_all pos (weights s) \<and>
     tickers s \<noteq> [] \<and> length (weights s) = length (tickers s))"

definition clean_table :: "frame \<Rightarrow> bool" where
  "clean_table f = (wf_frame f \<and> 2 \<le> length (rows f) \<and>
     list_all (\<lambda>r. list_all pos (snd r)) (rows f))"

definition serves :: "frame \<Rightarrow> simulator \<Rightarrow> bool" where
  "serves f s = (set (tickers s) \<subseteq> set (columns f) \<and>
     length (tickers s) = length (columns f))"

text \<open>Three dates: prices that do not move, and prices that rise.\<close>

definition flat_sim :: simulator where
  "flat_sim = ex_sim\<lparr>data := Some \<lparr>columns = [''A'', ''B''],
     rows = [(0, [Fin 100, Fin 50]), (1, [Fin 100, Fin 50]), (2, [Fin 100, Fin 50])]\<rparr>\<rparr>"

definition rising_sim :: simulator where
  "rising_sim = ex_sim\<lparr>data := Some \<lparr>columns = [''A'', ''B''],
     rows = [(0, [Fin 100, Fin 50]), (1, [Fin 110, Fin 55]), (2, [Fin 121, Fin 55])]\<rparr>\<rparr>"

text \<open>
  The maximum drawdown in the words of the specification, on the real values of a
  series: the running peak at a date is the greatest value up to that date, the drawdown
  there is the fall from the peak as a fraction of the peak, and the maximum drawdown is
  the greatest drawdown over all dates.
\<close>

definition running_peak :: "real list \<Rightarrow> nat \<Rightarrow> real" where
  "running_peak vs i = Max (set (take (Suc i) vs))"

definition drawdown :: "real list \<Rightarrow> nat \<Rightarrow> real" where
  "drawdown vs i = (running_peak vs i - vs ! i) / running_peak vs i"

definition spec_max_drawdown :: "real list \<Rightarrow> real" where
  "spec_max_drawdown vs = Max (set (map (drawdown vs) [0..<length vs]))"

text \<open>Three dates with a fall on the last one.\<close>

definition dip_sim :: simulator where
  "dip_sim = ex_sim\<lparr>data := Some \<lparr>columns = [''A'', ''B''],
     rows = [(0, [Fin 100, Fin 50]), (1, [Fin 110, Fin 55]),
             (2, [Fin 99, Fin (99 / 2)])]\<rparr>\<rparr>"




text \<open>
  The value series in the words of the specification: on every date, the sum over the
  requested symbols of \<open>shares[symbol] * price[date][symbol]\<close>, the shares being listed
  in the order of the tickers.
\<close>

definition spec_value :: "frame \<Rightarrow> string list \<Rightarrow> f64 list \<Rightarrow> nat \<Rightarrow> f64" where
  "spec_value f ts sh i =
     f_sum (map (\<lambda>tx. f_mul (snd tx) (price f i (fst tx))) (zip ts sh))"

definition spec_value_series :: "frame \<Rightarrow> string list \<Rightarrow> f64 list \<Rightarrow> series" where
  "spec_value_series f ts sh =
     map (\<lambda>i. (fst (rows f ! i), spec_value f ts sh i)) [0..<length (rows f)]"

text \<open>
  The end-to-end example with the tickers entered as B, A: the table keeps its columns
  in the order A, B.
\<close>

definition swapped_sim :: simulator where
  "swapped_sim = ex_sim\<lparr>tickers := [''B'', ''A'']\<rparr>"

text \<open>A table in which the price of A turns negative on the second date.\<close>

definition neg_frame :: frame where
  "neg_frame = \<lparr>columns = [''A'', ''B''],
     rows = [(0, [Fin 20, Fin 50]), (1, [Fin (- 40), Fin 50])]\<rparr>"

definition neg_sim :: simulator where
  "neg_sim = ex_sim\<lparr>data := Some neg_frame\<rparr>"



section \<open>Evaluating the model\<close>

text \<open>Powers of small numbers stay in the range of the doubles.\<close>

lemma double_bound_gt: "2 ^ 1023 < double_bound"
proof -
  have "(2::real) ^ 970 < 2 ^ 1023" by (rule power_strict_increasing) auto
  moreover have "(2::real) ^ 1024 = 2 * 2 ^ 1023" by simp
  ultimately show ?thesis unfolding double_bound_def by linarith
qed

lemma to_double_small:
  assumes "\<bar>x\<bar> \<le> 2" and "n \<le> 1023"
  shows "to_double (x ^ n) = Fin (x ^ n)"
proof -
  have "\<bar>x ^ n\<bar> = \<bar>x\<bar> ^ n" by (simp add: power_abs)
  also have "\<dots> \<le> 2 ^ n" using assms(1) by (intro power_mono) auto
  also have "\<dots> \<le> (2::real) ^ 1023" using assms(2) by (intro power_increasing) auto
  finally show ?thesis using double_bound_gt by (simp add: to_double_def)
qed

lemma to_double_one: "to_double 1 = Fin 1"
  using to_double_small [of 1 0] by simp

lemmas model_defs = shares_of_def column_def iloc_first_def iloc_last_def value_series_def
  mul_frame_def sum_axis1_def nansum_def f_sum_def isnan_def daily_returns_of_def
  pct_change_def dropna_def total_return_of_def annual_return_of_def annual_vol_of_def
  std_def sharpe_of_def individual_return_def argmax_def argmin_def f_sub_def f_le_def
  inf_of_def risk_free_rate_def f_pow_def to_double_small to_double_one


section \<open>The end-to-end example\<close>

text \<open>
  Claim C9. On tickers A and B with weights one half each, a cash of 1000, prices
  A = 100 and B = 50 on the first date and A = 110 and B = 55 on the second,
  \<open>simulate_portfolio\<close> computes the shares 5 and 10, the portfolio values 1000 and
  1100, and the total return 0.10. The other values it computes are listed with them.
\<close>

theorem example_end_to_end:
  "simulate_locals ex_sim =
     Inr \<lparr>shares = [Fin 5, Fin 10], portfolio = [(0, Fin 1000), (1, Fin 1100)],
          daily_returns = [(1, Fin (1 / 10))], total_return = Fin (1 / 10),
          annual_return = Fin ((11 / 10) powr 126 - 1), annual_vol = NaN,
          sharpe = Fin 0, individual_returns = [Fin 10, Fin 10],
          best = ''A'', worst = ''A''\<rparr>"
  by (simp add: simulate_locals_def ex_sim_def ex_frame_def model_defs)

section \<open>Cleaning the downloaded table\<close>

lemma complete_row_iff: "complete_row r = (\<forall>x\<in>set (snd r). x \<noteq> NaN)"
  by (auto simp: complete_row_def list_ex_iff isnan_def split: f64.splits)

text \<open>
  Claim C3, as the code has it. When tickers were entered and the download has a row
  and a column and no symbol is missing on every date, \<open>fetch_data\<close> keeps exactly the
  rows without a missing value, in their order. With fewer than two of them it prints
  the message of \<open>InsufficientHistory\<close> and clears the data; otherwise the kept rows
  are the data, and every one of them has a price for every symbol.
\<close>

theorem fetch_data_drops_incomplete_rows:
  assumes "tickers s \<noteq> []" and "\<not> empty_frame f" and "\<not> isna_all_any f"
  shows "fetch_data s (Returned f) =
     (let kept = filter (\<lambda>r. \<forall>x\<in>set (snd r). x \<noteq> NaN) (rows f)
      in if length kept < 2 then (Some InsufficientHistory, s\<lparr>data := None\<rparr>)
         else (None, s\<lparr>data := Some (f\<lparr>rows := kept\<rparr>)\<rparr>))"
proof -
  have "complete_row = (\<lambda>r. \<forall>x\<in>set (snd r). x \<noteq> NaN)"
    by (rule ext) (rule complete_row_iff)
  with assms show ?thesis
    by (simp add: fetch_data_def dropna_frame_def Let_def)
qed

theorem fetch_data_drops_incomplete_rows_witness:
  "tickers ex_sim \<noteq> [] \<and> \<not> empty_frame raw_frame \<and> \<not> isna_all_any raw_frame \<and>
   fetch_data ex_sim (Returned raw_frame) =
     (None, ex_sim\<lparr>data :=
        Some (raw_frame\<lparr>rows := [(0, [Fin 100, Fin 50]), (2, [Fin 110, Fin 55])]\<rparr>)\<rparr>)"
proof -
  have t: "tickers ex_sim \<noteq> []" by (simp add: ex_sim_def)
  have e: "\<not> empty_frame raw_frame" by (simp add: empty_frame_def raw_frame_def)
  have a: "\<not> isna_all_any raw_frame"
    by (simp add: isna_all_any_def raw_frame_def isnan_def upt_rec)
  show ?thesis
    using fetch_data_drops_incomplete_rows [OF t e a] t e a
    by (simp add: raw_frame_def)
qed

text \<open>
  The claim as it is written fails on a download in which a symbol has no price on any
  date: no complete row is left, and the message is that of \<open>MissingSymbolData\<close>,
  printed by the check that comes before the rows are dropped.
\<close>

theorem missing_column_not_insufficient_history:
  "length (rows (dropna_frame gap_frame)) < 2 \<and>
   fetch_data ex_sim (Returned gap_frame) = (Some MissingSymbolData, ex_sim\<lparr>data := None\<rparr>)"
  by (simp add: fetch_data_def gap_frame_def ex_sim_def empty_frame_def isna_all_any_def
      isnan_def upt_rec dropna_frame_def complete_row_def)

section \<open>The method runs to its end\<close>

lemma index_of_mem:
  "a \<in> set xs \<Longrightarrow> \<exists>j. index_of xs a = Some j \<and> j < length xs \<and> xs ! j = a"
  by (induction xs) auto

lemma traverse_e_pure: "traverse_e (\<lambda>x. Inr (h x)) xs = Inr (map h xs)"
  by (induction xs) auto

lemma traverse_e_cong:
  "(\<And>x. x \<in> set xs \<Longrightarrow> g x = g' x) \<Longrightarrow> traverse_e g xs = traverse_e g' xs"
  by (induction xs) auto

lemma first_price:
  assumes "t \<in> set (columns f)" and "rows f \<noteq> []"
  shows "bind_e (column f t) (\<lambda>c. bind_e (iloc_first c) k) = k (price f 0 t)"
proof -
  obtain j where "index_of (columns f) t = Some j"
    using index_of_mem [OF assms(1)] by blast
  moreover obtain r rs where "rows f = r # rs"
    using assms(2) by (cases "rows f") auto
  ultimately show ?thesis
    by (simp add: column_def iloc_first_def price_def)
qed

lemma last_price:
  assumes "t \<in> set (columns f)" and "rows f \<noteq> []"
  shows "bind_e (column f t) (\<lambda>c. bind_e (iloc_last c) k) =
     k (price f (length (rows f) - 1) t)"
proof -
  obtain j where "index_of (columns f) t = Some j"
    using index_of_mem [OF assms(1)] by blast
  then show ?thesis
    using assms(2) by (simp add: column_def iloc_last_def price_def last_map last_conv_nth)
qed

lemma shares_of_eq:
  assumes "set (tickers s) \<subseteq> set (columns f)" and "rows f \<noteq> []"
  shows "shares_of s f =
     Inr (map (\<lambda>wt. f_div (f_mul (initial_cash s) (fst wt)) (price f 0 (snd wt)))
            (zip (weights s) (tickers s)))"
proof -
  have "shares_of s f =
      traverse_e (\<lambda>wt. Inr (f_div (f_mul (initial_cash s) (fst wt)) (price f 0 (snd wt))))
        (zip (weights s) (tickers s))"
    unfolding shares_of_def
  proof (rule traverse_e_cong)
    fix x assume "x \<in> set (zip (weights s) (tickers s))"
    then have "snd x \<in> set (columns f)"
      using assms(1) set_zip_rightD [of "fst x" "snd x"] by auto
    then show "bind_e (column f (snd x)) (\<lambda>c. bind_e (iloc_first c)
         (\<lambda>p. Inr (f_div (f_mul (initial_cash s) (fst x)) p))) =
       Inr (f_div (f_mul (initial_cash s) (fst x)) (price f 0 (snd x)))"
      using assms(2) by (rule first_price)
  qed
  then show ?thesis by (simp add: traverse_e_pure)
qed

lemma individual_return_eq:
  assumes "t \<in> set (columns f)" and "rows f \<noteq> []"
  shows "individual_return f t =
     Inr (f_mul (f_sub (f_div (price f (length (rows f) - 1) t) (price f 0 t)) (Fin 1))
            (Fin 100))"
  unfolding individual_return_def
  by (simp add: last_price [OF assms] first_price [OF assms])

lemma individual_returns_eq:
  assumes "set ts \<subseteq> set (columns f)" and "rows f \<noteq> []"
  shows "traverse_e (individual_return f) ts =
     Inr (map (\<lambda>t. f_mul (f_sub (f_div (price f (length (rows f) - 1) t) (price f 0 t))
                  (Fin 1)) (Fin 100)) ts)"
proof -
  have "traverse_e (individual_return f) ts =
     traverse_e (\<lambda>t. Inr (f_mul (f_sub (f_div (price f (length (rows f) - 1) t)
                  (price f 0 t)) (Fin 1)) (Fin 100))) ts"
    using assms by (intro traverse_e_cong individual_return_eq) auto
  then show ?thesis by (simp add: traverse_e_pure)
qed

lemma argmax_nonempty: "xs \<noteq> [] \<Longrightarrow> \<exists>i. argmax xs = Inr i"
  by (cases xs) (auto simp: argmax_def)

lemma argmin_nonempty: "xs \<noteq> [] \<Longrightarrow> \<exists>i. argmin xs = Inr i"
  by (cases xs) (auto simp: argmin_def)

text \<open>
  With a row in the table, a column for every ticker and as many weights and columns as
  tickers, no statement of \<open>simulate_portfolio\<close> raises, whatever the prices are.
\<close>

lemma simulate_locals_succeeds:
  assumes "data s = Some f" and "rows f \<noteq> []" and "tickers s \<noteq> []"
    and "set (tickers s) \<subseteq> set (columns f)"
    and "length (weights s) = length (tickers s)"
    and "length (tickers s) = length (columns f)"
  shows "\<exists>l. simulate_locals s = Inr l \<and>
     shares l = map (\<lambda>wt. f_div (f_mul (initial_cash s) (fst wt)) (price f 0 (snd wt)))
            (zip (weights s) (tickers s))"
proof -
  let ?sh = "map (\<lambda>wt. f_div (f_mul (initial_cash s) (fst wt)) (price f 0 (snd wt)))
            (zip (weights s) (tickers s))"
  have sh: "shares_of s f = Inr ?sh"
    using assms(4,2) by (rule shares_of_eq)
  have len: "length ?sh = length (columns f)"
    using assms(5,6) by simp
  obtain pv where pv: "value_series f ?sh = Inr pv" "pv \<noteq> []"
    using len assms(2) by (simp add: value_series_def mul_frame_def sum_axis1_def)
  obtain tr where tr: "total_return_of s pv = Inr tr"
    using pv(2) by (simp add: total_return_of_def iloc_last_def)
  obtain ar where ar: "annual_return_of tr (length (rows f)) = Inr ar"
    using assms(2) by (simp add: annual_return_of_def)
  obtain irs where irs: "traverse_e (individual_return f) (tickers s) = Inr irs" "irs \<noteq> []"
    using individual_returns_eq [OF assms(4,2)] assms(3) by simp
  obtain bi where bi: "argmax irs = Inr bi"
    using argmax_nonempty [OF irs(2)] by blast
  obtain wi where wi: "argmin irs = Inr wi"
    using argmin_nonempty [OF irs(2)] by blast
  show ?thesis
    using assms(1) sh pv(1) tr ar irs(1) bi wi
    by (simp add: simulate_locals_def Let_def)
qed

section \<open>A price of zero on the first date\<close>

text \<open>
  Claim C2, as the code has it. \<open>simulate_portfolio\<close> has no test of the prices: with a
  row in the table, a column for every ticker and as many weights and columns as
  tickers, it runs to its end also when a requested symbol has the price zero on the
  first date. The division is carried out on doubles, and for a positive product of
  cash and weight the share count of that symbol is plus infinity.
\<close>

theorem zero_price_divides:
  assumes "data s = Some f" and "rows f \<noteq> []" and "tickers s \<noteq> []"
    and "set (tickers s) \<subseteq> set (columns f)"
    and "length (weights s) = length (tickers s)"
    and "length (tickers s) = length (columns f)"
    and "k < length (tickers s)" and "price f 0 (tickers s ! k) = Fin 0"
    and "initial_cash s = Fin c" and "weights s ! k = Fin w" and "0 < c * w"
  shows "\<exists>l. simulate_locals s = Inr l \<and> shares l ! k = PInf"
proof -
  obtain l where l: "simulate_locals s = Inr l"
    "shares l = map (\<lambda>wt. f_div (f_mul (initial_cash s) (fst wt)) (price f 0 (snd wt)))
            (zip (weights s) (tickers s))"
    using simulate_locals_succeeds [OF assms(1-6)] by blast
  have "shares l ! k = f_div (f_mul (Fin c) (Fin w)) (Fin 0)"
    using assms(5,7,8,9,10) by (simp add: l(2))
  then show ?thesis
    using l(1) assms(11) by (simp add: inf_of_def)
qed

text \<open>
  The claim as it is written fails on the example with the price of A set to zero on the
  first date: the method returns, with infinite values where the claim has an error.
\<close>

theorem zero_price_not_rejected:
  "price zero_frame 0 ''A'' = Fin 0 \<and>
   shares_of zero_sim zero_frame = Inr [PInf, Fin 10] \<and>
   simulate_portfolio zero_sim =
     Inr (zero_sim\<lparr>portfolio_value := Some [(0, Fin 500), (1, PInf)],
            sharpe_ratio := Some (Fin 0), best_stock := Some ''A'',
            worst_stock := Some ''B''\<rparr>)"
proof -
  have "price zero_frame 0 ''A'' = Fin 0"
    by (simp add: price_def zero_frame_def)
  moreover have "shares_of zero_sim zero_frame = Inr [PInf, Fin 10]"
    by (simp add: zero_sim_def ex_sim_def zero_frame_def model_defs)
  moreover have "simulate_portfolio zero_sim =
     Inr (zero_sim\<lparr>portfolio_value := Some [(0, Fin 500), (1, PInf)],
            sharpe_ratio := Some (Fin 0), best_stock := Some ''A'',
            worst_stock := Some ''B''\<rparr>)"
    by (simp add: simulate_portfolio_def simulate_locals_def zero_sim_def ex_sim_def
        zero_frame_def model_defs Let_def)
  ultimately show ?thesis by simp
qed

theorem zero_price_divides_witness:
  "\<exists>l. simulate_locals zero_sim = Inr l \<and> shares l ! 0 = PInf"
  using zero_price_divides [of zero_sim zero_frame 0 1000 "1 / 2"]
  by (simp add: zero_sim_def ex_sim_def zero_frame_def price_def)

section \<open>What a run that ends has computed\<close>

lemma bind_e_Inr: "bind_e m k = Inr y \<longleftrightarrow> (\<exists>x. m = Inr x \<and> k x = Inr y)"
  by (cases m) auto

lemma simulate_locals_Inr:
  assumes "simulate_locals s = Inr l" and "data s = Some f"
  shows "shares_of s f = Inr (shares l)"
    and "value_series f (shares l) = Inr (portfolio l)"
    and "daily_returns l = daily_returns_of (portfolio l)"
    and "total_return_of s (portfolio l) = Inr (total_return l)"
    and "annual_return_of (total_return l) (length (rows f)) = Inr (annual_return l)"
    and "annual_vol l = annual_vol_of (daily_returns l)"
    and "sharpe l = sharpe_of (annual_return l) (annual_vol l)"
    and "traverse_e (individual_return f) (tickers s) = Inr (individual_returns l)"
    and "\<exists>i. argmax (individual_returns l) = Inr i \<and> best l = tickers s ! i"
    and "\<exists>i. argmin (individual_returns l) = Inr i \<and> worst l = tickers s ! i"
  using assms by (auto simp: simulate_locals_def bind_e_Inr Let_def)

lemma pos_iff: "pos x \<longleftrightarrow> (\<exists>v. x = Fin v \<and> 0 < v)"
  by (cases x) (auto simp: pos_def)

lemma pos_mul: "pos a \<Longrightarrow> pos b \<Longrightarrow> pos (f_mul a b)"
  by (auto simp: pos_iff)

lemma pos_div: "pos a \<Longrightarrow> pos b \<Longrightarrow> pos (f_div a b)"
  by (auto simp: pos_iff)

lemma f_sum_pos:
  "list_all pos xs \<Longrightarrow> \<exists>v. f_sum xs = Fin v \<and> 0 \<le> v \<and> (xs \<noteq> [] \<longrightarrow> 0 < v)"
proof (induction xs)
  case Nil
  then show ?case by (simp add: f_sum_def)
next
  case (Cons x xs)
  then obtain v where "f_sum xs = Fin v" "0 \<le> v" by auto
  moreover obtain u where "x = Fin u" "0 < u"
    using Cons.prems by (auto simp: pos_iff)
  ultimately show ?case by (simp add: f_sum_def)
qed

lemma nansum_pos: "list_all pos xs \<Longrightarrow> xs \<noteq> [] \<Longrightarrow> pos (nansum xs)"
proof -
  assume a: "list_all pos xs" and n: "xs \<noteq> []"
  have "filter (\<lambda>x. \<not> isnan x) xs = xs"
    using a by (auto simp: filter_id_conv list_all_iff pos_iff isnan_def)
  then show ?thesis
    using f_sum_pos [OF a] n by (auto simp: nansum_def pos_iff)
qed

lemma price_pos:
  assumes "clean_table f" and "t \<in> set (columns f)" and "i < length (rows f)"
  shows "pos (price f i t)"
proof -
  obtain j where j: "index_of (columns f) t = Some j" "j < length (columns f)"
    using index_of_mem [OF assms(2)] by blast
  have "rows f ! i \<in> set (rows f)" using assms(3) by simp
  then have "length (snd (rows f ! i)) = length (columns f)" "list_all pos (snd (rows f ! i))"
    using assms(1) by (auto simp: clean_table_def wf_frame_def list_all_iff)
  then have "pos (snd (rows f ! i) ! j)"
    using j(2) by (simp add: list_all_length)
  then show ?thesis by (simp add: price_def j(1))
qed

lemma shares_pos:
  assumes "valid_request s" and "clean_table f" and "serves f s"
  shows "list_all pos (map (\<lambda>wt. f_div (f_mul (initial_cash s) (fst wt)) (price f 0 (snd wt)))
            (zip (weights s) (tickers s)))"
proof -
  have r: "0 < length (rows f)" using assms(2) by (cases "rows f") (auto simp: clean_table_def)
  have "pos (f_div (f_mul (initial_cash s) (fst wt)) (price f 0 (snd wt)))"
    if "wt \<in> set (zip (weights s) (tickers s))" for wt
  proof -
    have "fst wt \<in> set (weights s)" "snd wt \<in> set (tickers s)"
      using that set_zip_leftD [of "fst wt" "snd wt"] set_zip_rightD [of "fst wt" "snd wt"]
      by auto
    then have "pos (fst wt)" "snd wt \<in> set (columns f)"
      using assms(1,3) by (auto simp: valid_request_def serves_def list_all_iff)
    then show ?thesis
      using assms(1) price_pos [OF assms(2) _ r]
      by (intro pos_div pos_mul) (auto simp: valid_request_def)
  qed
  then show ?thesis by (simp add: list_all_iff)
qed

lemma values_pos:
  assumes "valid_request s" and "clean_table f" and "serves f s"
    and "data s = Some f" and "simulate_locals s = Inr l"
  shows "list_all (\<lambda>x. pos (snd x)) (portfolio l)" and "length (portfolio l) = length (rows f)"
proof -
  have ne: "rows f \<noteq> []" using assms(2) by (auto simp: clean_table_def)
  have sub: "set (tickers s) \<subseteq> set (columns f)" using assms(3) by (simp add: serves_def)
  have sh: "shares l = map (\<lambda>wt. f_div (f_mul (initial_cash s) (fst wt)) (price f 0 (snd wt)))
            (zip (weights s) (tickers s))"
    using simulate_locals_Inr(1) [OF assms(5,4)] shares_of_eq [OF sub ne] by simp
  then have shp: "list_all pos (shares l)"
    using shares_pos [OF assms(1-3)] by simp
  have len: "length (shares l) = length (columns f)" "shares l \<noteq> []"
    using assms(1,3) by (auto simp: sh valid_request_def serves_def)
  have pv: "portfolio l = map (\<lambda>r. (fst r, nansum (map2 f_mul (snd r) (shares l)))) (rows f)"
    using simulate_locals_Inr(2) [OF assms(5,4)] len
    by (simp add: value_series_def mul_frame_def sum_axis1_def o_def)
  show "length (portfolio l) = length (rows f)" by (simp add: pv)
  have "pos (nansum (map2 f_mul (snd r) (shares l)))" if "r \<in> set (rows f)" for r
  proof -
    have rl: "length (snd r) = length (shares l)" "list_all pos (snd r)"
      using that assms(2) len by (auto simp: clean_table_def wf_frame_def list_all_iff)
    have "list_all pos (map2 f_mul (snd r) (shares l))"
      using rl shp by (auto simp: list_all_length pos_mul)
    moreover have "map2 f_mul (snd r) (shares l) \<noteq> []"
      using rl(1) len(2) by (cases "snd r"; cases "shares l") auto
    ultimately show ?thesis by (rule nansum_pos)
  qed
  then show "list_all (\<lambda>x. pos (snd x)) (portfolio l)"
    by (simp add: pv list_all_iff)
qed


lemma ex_data: "data ex_sim = Some ex_frame"
  by (simp add: ex_sim_def)

lemma ex_valid: "valid_request ex_sim"
  by (simp add: valid_request_def ex_sim_def pos_def)

lemma ex_clean: "clean_table ex_frame"
  by (simp add: clean_table_def wf_frame_def ex_frame_def pos_def)

lemma ex_serves: "serves ex_frame ex_sim"
  by (simp add: serves_def ex_sim_def ex_frame_def)

section \<open>Two dates only\<close>

lemma pct_from_pos:
  "pos prev \<Longrightarrow> list_all (\<lambda>x. pos (snd x)) xs \<Longrightarrow>
     dropna (pct_from prev xs) = pct_from prev xs \<and> length (pct_from prev xs) = length xs"
proof (induction xs arbitrary: prev)
  case Nil
  then show ?case by (simp add: dropna_def)
next
  case (Cons x xs)
  then have "pos (snd x)" "list_all (\<lambda>x. pos (snd x)) xs" by auto
  with Cons.IH [of "snd x"] Cons.prems(1) show ?case
    by (auto simp: dropna_def pos_iff f_sub_def isnan_def)
qed

lemma daily_returns_length:
  assumes "list_all (\<lambda>x. pos (snd x)) pv"
  shows "length (daily_returns_of pv) = length pv - 1"
proof (cases pv)
  case Nil
  then show ?thesis by (simp add: daily_returns_of_def pct_change_def dropna_def)
next
  case (Cons x xs)
  then have "pos (snd x)" "list_all (\<lambda>x. pos (snd x)) xs" using assms by auto
  from pct_from_pos [OF this] show ?thesis
    by (simp add: Cons daily_returns_of_def pct_change_def dropna_def isnan_def)
qed

lemma std_short:
  assumes "length dr \<le> 1"
  shows "std dr = NaN"
proof -
  have a: "length (filter (\<lambda>x. \<not> isnan x) (map snd dr)) \<le> length (map snd dr)"
    by (rule length_filter_le)
  have b: "length (map snd dr) = length dr" by simp
  from a b assms have "length (filter (\<lambda>x. \<not> isnan x) (map snd dr)) \<le> 1"
    by linarith
  then show ?thesis unfolding std_def Let_def by simp
qed

text \<open>
  Claim C10. On a cleaned table with exactly two dates (and a valid request that the
  table serves) \<open>simulate_portfolio\<close> runs to its end, the series of daily returns has
  length 1, its sample standard deviation and with it the annualized volatility are
  \<open>NaN\<close>, and the Sharpe ratio is exactly 0: the test \<open>annual_vol > 0\<close> is false on
  \<open>NaN\<close>.
\<close>

theorem two_dates_sharpe_zero:
  assumes "data s = Some f" and "valid_request s" and "clean_table f" and "serves f s"
    and "length (rows f) = 2"
  shows "\<exists>l. simulate_locals s = Inr l \<and> length (daily_returns l) = 1 \<and>
     std (daily_returns l) = NaN \<and> annual_vol l = NaN \<and> sharpe l = Fin 0"
proof -
  have "rows f \<noteq> []" using assms(5) by auto
  then obtain l where l: "simulate_locals s = Inr l"
    using simulate_locals_succeeds [OF assms(1)] assms(2,4)
    by (auto simp: valid_request_def serves_def)
  note inv = simulate_locals_Inr [OF l assms(1)]
  have "length (daily_returns l) = length (portfolio l) - 1"
    using values_pos(1) [OF assms(2,3,4,1) l] by (simp add: inv(3) daily_returns_length)
  then have n: "length (daily_returns l) = 1"
    using values_pos(2) [OF assms(2,3,4,1) l] assms(5) by simp
  then have sd: "std (daily_returns l) = NaN" by (simp add: std_short)
  then have vol: "annual_vol l = NaN" by (simp add: inv(6) annual_vol_of_def)
  then have "sharpe l = Fin 0" by (simp add: inv(7) sharpe_of_def)
  with l n sd vol show ?thesis by simp
qed

theorem two_dates_sharpe_zero_witness:
  "data ex_sim = Some ex_frame \<and> valid_request ex_sim \<and> clean_table ex_frame \<and>
   serves ex_frame ex_sim \<and> length (rows ex_frame) = 2 \<and>
   (\<exists>l. simulate_locals ex_sim = Inr l \<and> length (daily_returns l) = 1 \<and>
     std (daily_returns l) = NaN \<and> annual_vol l = NaN \<and> sharpe l = Fin 0)"
proof -
  have n: "length (rows ex_frame) = 2" by (simp add: ex_frame_def)
  show ?thesis
    using two_dates_sharpe_zero [OF ex_data ex_valid ex_clean ex_serves n]
      ex_data ex_valid ex_clean ex_serves n by simp
qed

section \<open>The Sharpe ratio\<close>

lemma bind_e_Inl: "bind_e m k = Inl e \<longleftrightarrow> m = Inl e \<or> (\<exists>x. m = Inr x \<and> k x = Inl e)"
  by (cases m) auto

lemma traverse_e_Inl: "traverse_e g xs = Inl e \<Longrightarrow> \<exists>x\<in>set xs. g x = Inl e"
  by (induction xs) (auto simp: bind_e_Inl)

lemma column_Inl: "column f t = Inl e \<Longrightarrow> e = KeyError"
  by (auto simp: column_def split: option.splits)

lemma iloc_first_Inl: "iloc_first c = Inl e \<Longrightarrow> e = IndexError"
  by (auto simp: iloc_first_def split: list.splits)

lemma iloc_last_Inl: "iloc_last c = Inl e \<Longrightarrow> e = IndexError"
  by (auto simp: iloc_last_def split: if_splits)

lemma shares_of_Inl: "shares_of s f = Inl e \<Longrightarrow> e = KeyError \<or> e = IndexError"
  unfolding shares_of_def
  by (drule traverse_e_Inl) (auto simp: bind_e_Inl dest: column_Inl iloc_first_Inl)

lemma individual_return_Inl: "individual_return f t = Inl e \<Longrightarrow> e = KeyError \<or> e = IndexError"
  unfolding individual_return_def
  by (auto simp: bind_e_Inl dest: column_Inl iloc_first_Inl iloc_last_Inl)

lemma value_series_Inl: "value_series f sh = Inl e \<Longrightarrow> e = ValueError"
  by (auto simp: value_series_def mul_frame_def bind_e_Inl split: if_splits)

lemma value_series_length: "value_series f sh = Inr pv \<Longrightarrow> length pv = length (rows f)"
  by (auto simp: value_series_def mul_frame_def bind_e_Inr sum_axis1_def split: if_splits)

lemma total_return_of_Inl: "total_return_of s pv = Inl e \<Longrightarrow> e = IndexError"
  by (auto simp: total_return_of_def bind_e_Inl dest: iloc_last_Inl)

lemma total_return_of_Inr: "total_return_of s pv = Inr tr \<Longrightarrow> pv \<noteq> []"
  by (auto simp: total_return_of_def bind_e_Inr iloc_last_def split: if_splits)

lemma argmax_Inl: "argmax xs = Inl e \<Longrightarrow> e = ValueError"
  by (auto simp: argmax_def split: list.splits)

lemma argmin_Inl: "argmin xs = Inl e \<Longrightarrow> e = ValueError"
  by (auto simp: argmin_def split: list.splits)

lemma no_division_error: "simulate_locals s \<noteq> Inl ZeroDivisionError"
proof
  assume a: "simulate_locals s = Inl ZeroDivisionError"
  then obtain f where f: "data s = Some f"
    by (cases "data s") (auto simp: simulate_locals_def)
  from a f consider
      "shares_of s f = Inl ZeroDivisionError"
    | sh where "value_series f sh = Inl ZeroDivisionError"
    | pv where "total_return_of s pv = Inl ZeroDivisionError"
    | sh pv tr where "value_series f sh = Inr pv" "total_return_of s pv = Inr tr"
        "annual_return_of tr (length (rows f)) = Inl ZeroDivisionError"
    | "traverse_e (individual_return f) (tickers s) = Inl ZeroDivisionError"
    | irs where "argmax irs = Inl ZeroDivisionError"
    | irs where "argmin irs = Inl ZeroDivisionError"
    by (auto simp: simulate_locals_def bind_e_Inl Let_def)
  then show False
  proof cases
    case 1
    then show ?thesis by (auto dest: shares_of_Inl)
  next
    case 2
    then show ?thesis by (auto dest: value_series_Inl)
  next
    case 3
    then show ?thesis by (auto dest: total_return_of_Inl)
  next
    case 4
    then have "rows f = []" by (auto simp: annual_return_of_def split: if_splits)
    with value_series_length [OF 4(1)] total_return_of_Inr [OF 4(2)] show ?thesis
      by simp
  next
    case 5
    then show ?thesis by (auto dest!: traverse_e_Inl individual_return_Inl)
  next
    case 6
    then show ?thesis by (auto dest: argmax_Inl)
  next
    case 7
    then show ?thesis by (auto dest: argmin_Inl)
  qed
qed

lemma annual_vol_range:
  "annual_vol_of dr = NaN \<or> annual_vol_of dr = Fin 0 \<or> f_less (Fin 0) (annual_vol_of dr)"
proof -
  have "f_sqrt x = NaN \<or> f_sqrt x = PInf \<or> (\<exists>v. f_sqrt x = Fin v \<and> 0 \<le> v)" for x
    by (cases x) auto
  then have "std dr = NaN \<or> std dr = PInf \<or> (\<exists>v. std dr = Fin v \<and> 0 \<le> v)"
    by (auto simp: std_def Let_def)
  then show ?thesis
    by (auto simp: annual_vol_of_def inf_of_def) (auto simp: less_le)
qed

lemma flat_locals: "simulate_locals flat_sim =
     Inr \<lparr>shares = [Fin 5, Fin 10], portfolio = [(0, Fin 1000), (1, Fin 1000), (2, Fin 1000)],
          daily_returns = [(1, Fin 0), (2, Fin 0)], total_return = Fin 0,
          annual_return = Fin 0, annual_vol = Fin 0,
          sharpe = Fin 0, individual_returns = [Fin 0, Fin 0],
          best = ''A'', worst = ''A''\<rparr>"
  by (simp add: simulate_locals_def flat_sim_def ex_sim_def model_defs Let_def)

lemma rising_locals: "simulate_locals rising_sim =
     Inr \<lparr>shares = [Fin 5, Fin 10], portfolio = [(0, Fin 1000), (1, Fin 1100), (2, Fin 1155)],
          daily_returns = [(1, Fin (1 / 10)), (2, Fin (1 / 20))], total_return = Fin (31 / 200),
          annual_return = Fin ((231 / 200) powr 84 - 1), annual_vol = Fin (sqrt (1 / 800) * sqrt 252),
          sharpe = Fin (((231 / 200) powr 84 - 1 - 2 / 100) / (sqrt (1 / 800) * sqrt 252)),
          individual_returns = [Fin 21, Fin 10],
          best = ''A'', worst = ''B''\<rparr>"
  apply (simp add: simulate_locals_def rising_sim_def ex_sim_def model_defs Let_def)
  done

text \<open>
  Claim C4, as the code has it. No run of \<open>simulate_portfolio\<close> ends in a division
  error. In a run that ends the annualized volatility is 0, \<open>NaN\<close> or greater than 0;
  the Sharpe ratio is exactly 0 when it is 0 and also when it is \<open>NaN\<close>, and it is
  \<open>(annual_return - 0.02) / annual_vol\<close> when the volatility is greater than 0.
\<close>

theorem sharpe_policy:
  "simulate_locals s \<noteq> Inl ZeroDivisionError \<and>
   (\<forall>l. simulate_locals s = Inr l \<longrightarrow>
      (annual_vol l = Fin 0 \<or> annual_vol l = NaN \<or> f_less (Fin 0) (annual_vol l)) \<and>
      (annual_vol l = Fin 0 \<longrightarrow> sharpe l = Fin 0) \<and>
      (annual_vol l = NaN \<longrightarrow> sharpe l = Fin 0) \<and>
      (f_less (Fin 0) (annual_vol l) \<longrightarrow>
         sharpe l = f_div (f_sub (annual_return l) (Fin (2 / 100))) (annual_vol l)))"
proof (intro conjI allI impI)
  show "simulate_locals s \<noteq> Inl ZeroDivisionError" by (rule no_division_error)
next
  fix l assume l: "simulate_locals s = Inr l"
  then obtain f where f: "data s = Some f"
    by (cases "data s") (auto simp: simulate_locals_def)
  note inv = simulate_locals_Inr [OF l f]
  show "annual_vol l = Fin 0 \<or> annual_vol l = NaN \<or> f_less (Fin 0) (annual_vol l)"
    using annual_vol_range [of "daily_returns l"] by (auto simp: inv(6))
  show "sharpe l = Fin 0" if "annual_vol l = Fin 0"
    using that by (simp add: inv(7) sharpe_of_def)
  show "sharpe l = Fin 0" if "annual_vol l = NaN"
    using that by (simp add: inv(7) sharpe_of_def)
  show "sharpe l = f_div (f_sub (annual_return l) (Fin (2 / 100))) (annual_vol l)"
    if "f_less (Fin 0) (annual_vol l)"
    using that by (simp add: inv(7) sharpe_of_def risk_free_rate_def)
qed

theorem sharpe_policy_witness:
  "(\<exists>l. simulate_locals flat_sim = Inr l \<and> annual_vol l = Fin 0 \<and> sharpe l = Fin 0) \<and>
   (\<exists>l. simulate_locals rising_sim = Inr l \<and> f_less (Fin 0) (annual_vol l) \<and>
      sharpe l = f_div (f_sub (annual_return l) (Fin (2 / 100))) (annual_vol l))"
  using sharpe_policy [of flat_sim] sharpe_policy [of rising_sim]
  by (simp add: flat_locals rising_locals)

text \<open>
  The claim as it is written fails on the end-to-end example, a table of two dates: the
  volatility is not 0 there (it is \<open>NaN\<close>), and the Sharpe ratio is 0 and not the
  quotient, which is \<open>NaN\<close>.
\<close>

theorem two_dates_volatility_not_zero:
  "annual_vol (projr (simulate_locals ex_sim)) \<noteq> Fin 0 \<and>
   sharpe (projr (simulate_locals ex_sim)) \<noteq>
     f_div (f_sub (annual_return (projr (simulate_locals ex_sim))) (Fin (2 / 100)))
       (annual_vol (projr (simulate_locals ex_sim)))"
  by (simp add: simulate_locals_def ex_sim_def ex_frame_def model_defs)

section \<open>Total and annualized return\<close>







section \<open>A benchmark that cannot be fetched\<close>

lemma simulate_portfolio_Inr:
  assumes "simulate_portfolio s = Inr s'"
  shows "\<exists>l. simulate_locals s = Inr l \<and>
     s' = s\<lparr>portfolio_value := Some (portfolio l), sharpe_ratio := Some (sharpe l),
              best_stock := Some (best l), worst_stock := Some (worst l)\<rparr>"
  using assms by (auto simp: simulate_portfolio_def bind_e_Inr)

lemma simulate_locals_data: "simulate_locals s = Inr l \<Longrightarrow> \<exists>f. data s = Some f"
  by (cases "data s") (auto simp: simulate_locals_def)

text \<open>
  Claim C8. After a run of \<open>simulate_portfolio\<close> that ended, a benchmark download that
  raises (or has no row) makes \<open>compare_to_benchmark\<close> return no series, and
  \<open>display_and_save_results\<close> still shows the figures of the run, plots and saves its
  value series and returns: whatever the download does, only the benchmark line of the
  plot depends on it.
\<close>

theorem benchmark_failure_keeps_portfolio:
  assumes "simulate_locals s = Inr l" and "simulate_portfolio s = Inr s'"
  shows "compare_to_benchmark s' Raised = None \<and>
     compare_to_benchmark s' (Returned []) = None \<and>
     portfolio_value s' = Some (portfolio l) \<and>
     (\<forall>dl. display_and_save_results s' dl =
        Inr \<lparr>final_value = snd (last (portfolio l)), shown_total_return = total_return l,
             shown_annual_return = annual_return l, shown_annual_vol = annual_vol l,
             shown_max_drawdown = max_drawdown_of (portfolio l), shown_sharpe = sharpe l,
             shown_best = Some (best l), shown_worst = Some (worst l),
             plot_portfolio = portfolio l,
             plot_benchmark = compare_to_benchmark s' dl, csv = portfolio l\<rparr>)"
proof -
  obtain f where f: "data s = Some f"
    using simulate_locals_data [OF assms(1)] by blast
  note inv = simulate_locals_Inr [OF assms(1) f]
  have s': "s' = s\<lparr>portfolio_value := Some (portfolio l), sharpe_ratio := Some (sharpe l),
              best_stock := Some (best l), worst_stock := Some (worst l)\<rparr>"
    using simulate_portfolio_Inr [OF assms(2)] assms(1) by auto
  have tr: "total_return_of s' (portfolio l) = Inr (total_return l)"
    using inv(4) by (simp add: s' total_return_of_def)
  have ne: "portfolio l \<noteq> []"
    using inv(4) by (rule total_return_of_Inr)
  have "compare_to_benchmark s' Raised = None"
    by (simp add: compare_to_benchmark_def)
  moreover have "compare_to_benchmark s' (Returned []) = None"
    by (simp add: compare_to_benchmark_def iloc_first_def)
  moreover have "portfolio_value s' = Some (portfolio l)"
    by (simp add: s')
  moreover have "display_and_save_results s' dl =
        Inr \<lparr>final_value = snd (last (portfolio l)), shown_total_return = total_return l,
             shown_annual_return = annual_return l, shown_annual_vol = annual_vol l,
             shown_max_drawdown = max_drawdown_of (portfolio l), shown_sharpe = sharpe l,
             shown_best = Some (best l), shown_worst = Some (worst l),
             plot_portfolio = portfolio l,
             plot_benchmark = compare_to_benchmark s' dl, csv = portfolio l\<rparr>" for dl
    unfolding display_and_save_results_def
    using tr inv(5) ne f
    by (simp add: s' Let_def inv(3,6) iloc_last_def)
  ultimately show ?thesis by blast
qed

lemma ex_simulated: "simulate_portfolio ex_sim =
   Inr (ex_sim\<lparr>portfolio_value := Some [(0, Fin 1000), (1, Fin 1100)],
          sharpe_ratio := Some (Fin 0), best_stock := Some ''A'', worst_stock := Some ''A''\<rparr>)"
  by (simp add: simulate_portfolio_def simulate_locals_def ex_sim_def ex_frame_def model_defs)


theorem benchmark_failure_keeps_portfolio_witness:
  "\<exists>l s'. simulate_locals ex_sim = Inr l \<and> simulate_portfolio ex_sim = Inr s' \<and>
     compare_to_benchmark s' Raised = None \<and>
     display_and_save_results s' Raised =
        Inr \<lparr>final_value = Fin 1100, shown_total_return = Fin (1 / 10),
             shown_annual_return = Fin ((11 / 10) powr 126 - 1), shown_annual_vol = NaN,
             shown_max_drawdown = Fin 0, shown_sharpe = Fin 0,
             shown_best = Some ''A'', shown_worst = Some ''A'',
             plot_portfolio = [(0, Fin 1000), (1, Fin 1100)],
             plot_benchmark = None, csv = [(0, Fin 1000), (1, Fin 1100)]\<rparr>"
proof -
  have l: "simulate_locals ex_sim =
     Inr \<lparr>shares = [Fin 5, Fin 10], portfolio = [(0, Fin 1000), (1, Fin 1100)],
          daily_returns = [(1, Fin (1 / 10))], total_return = Fin (1 / 10),
          annual_return = Fin ((11 / 10) powr 126 - 1), annual_vol = NaN,
          sharpe = Fin 0, individual_returns = [Fin 10, Fin 10],
          best = ''A'', worst = ''A''\<rparr>"
    by (simp add: simulate_locals_def ex_sim_def ex_frame_def model_defs)
  have md: "max_drawdown_of [(a, Fin 1000), (b, Fin 1100)] = Fin 0" for a b
    by (simp add: max_drawdown_of_def cummax_def nanmax_def isnan_def f_sub_def)
  show ?thesis
    using benchmark_failure_keeps_portfolio [OF l ex_simulated]
    by (simp add: l ex_simulated md)
qed

section \<open>The maximum drawdown\<close>

lemma length_cummax_from: "length (cummax_from m xs) = length xs"
  by (induction xs arbitrary: m) (auto simp: Let_def)

lemma cummax_from_fin:
  "i < length rs \<Longrightarrow>
     cummax_from (Some (Fin m)) (map Fin rs) ! i = Fin (max m (Max (set (take (Suc i) rs))))"
proof (induction rs arbitrary: m i)
  case Nil
  then show ?case by simp
next
  case (Cons r rs)
  have step: "cummax_from (Some (Fin m)) (Fin r # map Fin rs) =
      Fin (max m r) # cummax_from (Some (Fin (max m r))) (map Fin rs)"
    by (simp add: isnan_def Let_def max_def)
  show ?case
  proof (cases i)
    case 0
    then show ?thesis by (simp add: step del: cummax_from.simps)
  next
    case (Suc j)
    then have j: "j < length rs" using Cons.prems by simp
    then have ne: "set (take (Suc j) rs) \<noteq> {}" by (cases rs) auto
    have "Max (set (take (Suc (Suc j)) (r # rs))) = max r (Max (set (take (Suc j) rs)))"
      using ne by (simp del: take_Suc_Cons add: take_Suc_Cons [of "Suc j"])
    then show ?thesis
      using Cons.IH [OF j, of "max m r"]
      by (simp add: step Suc max.assoc del: cummax_from.simps take_Suc_Cons)
  qed
qed

lemma cummax_fin:
  assumes "i < length rs"
  shows "cummax (map Fin rs) ! i = Fin (running_peak rs i)"
proof (cases rs)
  case Nil
  then show ?thesis using assms by simp
next
  case (Cons r rs')
  have step: "cummax (Fin r # map Fin rs') = Fin r # cummax_from (Some (Fin r)) (map Fin rs')"
    by (simp add: cummax_def isnan_def Let_def)
  show ?thesis
  proof (cases i)
    case 0
    then show ?thesis by (simp add: Cons step running_peak_def)
  next
    case (Suc j)
    then have j: "j < length rs'" using assms Cons by simp
    then have ne: "set (take (Suc j) rs') \<noteq> {}" by (cases rs') auto
    have "Max (set (take (Suc (Suc j)) (r # rs'))) = max r (Max (set (take (Suc j) rs')))"
      using ne by (simp del: take_Suc_Cons add: take_Suc_Cons [of "Suc j"])
    then show ?thesis
      using cummax_from_fin [OF j, of r]
      by (simp add: Cons step Suc running_peak_def del: take_Suc_Cons)
  qed
qed

lemma running_peak_ge:
  assumes "i < length rs"
  shows "rs ! i \<le> running_peak rs i"
proof -
  have "rs ! i \<in> set (take (Suc i) rs)"
    using assms by (simp add: take_Suc_conv_app_nth)
  then show ?thesis by (simp add: running_peak_def)
qed

lemma running_peak_sorted:
  assumes "i < length rs" and "sorted rs"
  shows "running_peak rs i = rs ! i"
proof (rule antisym)
  have "x \<le> rs ! i" if mem: "x \<in> set (take (Suc i) rs)" for x
  proof -
    obtain k where k: "k < length rs" "k < Suc i" "rs ! k = x"
      using mem by (auto simp: in_set_conv_nth)
    then have "rs ! k \<le> rs ! i"
      using assms by (intro sorted_nth_mono) auto
    then show ?thesis by (simp add: k(3))
  qed
  moreover have "set (take (Suc i) rs) \<noteq> {}" using assms(1) by (cases rs) auto
  ultimately show "running_peak rs i \<le> rs ! i" by (simp add: running_peak_def)
  show "rs ! i \<le> running_peak rs i" using assms(1) by (rule running_peak_ge)
qed

lemma drawdown_range:
  assumes "i < length rs" and "\<forall>v\<in>set rs. 0 < v"
  shows "0 \<le> drawdown rs i" and "drawdown rs i \<le> 1"
proof -
  have v: "0 < rs ! i" using assms by simp
  have p: "rs ! i \<le> running_peak rs i" using assms(1) by (rule running_peak_ge)
  with v have pp: "0 < running_peak rs i" by linarith
  show "0 \<le> drawdown rs i" using p pp by (simp add: drawdown_def)
  show "drawdown rs i \<le> 1" using v pp by (simp add: drawdown_def field_simps)
qed

lemma nanmax_from_fin: "nanmax_from (Fin m) (map Fin ds) = Fin (Max (insert m (set ds)))"
proof (induction ds arbitrary: m)
  case Nil
  then show ?case by simp
next
  case (Cons d ds)
  have "nanmax_from (Fin m) (map Fin (d # ds)) = nanmax_from (Fin (max m d)) (map Fin ds)"
    by (simp add: isnan_def max_def)
  also have "\<dots> = Fin (Max (insert (max m d) (set ds)))" by (rule Cons.IH)
  also have "Max (insert (max m d) (set ds)) = Max (insert m (set (d # ds)))"
    by (cases "set ds = {}") (auto simp: max.assoc max.commute max.left_commute)
  finally show ?case .
qed

lemma nanmax_fin: "ds \<noteq> [] \<Longrightarrow> nanmax (map Fin ds) = Fin (Max (set ds))"
proof (cases ds)
  case Nil
  then show "ds \<noteq> [] \<Longrightarrow> ?thesis" by simp
next
  case (Cons d ds')
  have "nanmax (map Fin (d # ds')) = nanmax_from (Fin d) (map Fin ds')"
    by (simp add: nanmax_def isnan_def)
  then show ?thesis by (simp add: Cons nanmax_from_fin)
qed

lemma max_drawdown_fin:
  assumes "map snd pv = map Fin rs" and "rs \<noteq> []" and "\<forall>v\<in>set rs. 0 < v"
  shows "max_drawdown_of pv = Fin (spec_max_drawdown rs)"
proof -
  let ?pk = "cummax (map Fin rs)"
  have lp: "length ?pk = length rs" by (simp add: cummax_def length_cummax_from)
  have "map2 f_div (map2 f_sub ?pk (map Fin rs)) ?pk = map Fin (map (drawdown rs) [0..<length rs])"
  proof (rule nth_equalityI)
    show "length (map2 f_div (map2 f_sub ?pk (map Fin rs)) ?pk) =
        length (map Fin (map (drawdown rs) [0..<length rs]))"
      by (simp add: lp)
  next
    fix i assume "i < length (map2 f_div (map2 f_sub ?pk (map Fin rs)) ?pk)"
    then have i: "i < length rs" by (simp add: lp)
    have "0 < rs ! i" using assms(3) i by simp
    with running_peak_ge [OF i] have "running_peak rs i \<noteq> 0" by linarith
    then show "map2 f_div (map2 f_sub ?pk (map Fin rs)) ?pk ! i =
        map Fin (map (drawdown rs) [0..<length rs]) ! i"
      using i by (simp add: lp cummax_fin f_sub_def drawdown_def)
  qed
  moreover have "map (drawdown rs) [0..<length rs] \<noteq> []" using assms(2) by simp
  ultimately show ?thesis
    by (simp add: max_drawdown_of_def Let_def assms(1) spec_max_drawdown_def nanmax_fin
        del: map_map)
qed

lemma spec_max_drawdown_range:
  assumes "rs \<noteq> []" and "\<forall>v\<in>set rs. 0 < v"
  shows "0 \<le> spec_max_drawdown rs" and "spec_max_drawdown rs \<le> 1"
    and "sorted rs \<Longrightarrow> spec_max_drawdown rs = 0"
proof -
  let ?D = "set (map (drawdown rs) [0..<length rs])"
  have ne: "?D \<noteq> {}" using assms(1) by simp
  have fin: "finite ?D" by simp
  have "Max ?D \<in> ?D" using fin ne by (rule Max_in)
  then obtain i where i: "i < length rs" "Max ?D = drawdown rs i" by auto
  show "0 \<le> spec_max_drawdown rs"
    using drawdown_range(1) [OF i(1) assms(2)] i(2) by (simp add: spec_max_drawdown_def)
  show "spec_max_drawdown rs \<le> 1"
    using drawdown_range(2) [OF i(1) assms(2)] i(2) by (simp add: spec_max_drawdown_def)
  show "spec_max_drawdown rs = 0" if "sorted rs"
    using running_peak_sorted [OF i(1) that] i(2)
    by (simp add: spec_max_drawdown_def drawdown_def)
qed


lemma display_Inr:
  assumes "display_and_save_results s dl = Inr r" and "portfolio_value s = Some pv"
  shows "shown_max_drawdown r = max_drawdown_of pv" and "pv \<noteq> []"
  using assms
  by (auto simp: display_and_save_results_def bind_e_Inr Let_def
      dest: total_return_of_Inr)

lemma dip_simulated: "simulate_portfolio dip_sim =
   Inr (dip_sim\<lparr>portfolio_value := Some [(0, Fin 1000), (1, Fin 1100), (2, Fin 990)],
          sharpe_ratio := Some (sharpe_of (Fin ((99 / 100) powr 84 - 1))
            (Fin (sqrt (1 / 50) * sqrt 252))),
          best_stock := Some ''A'', worst_stock := Some ''A''\<rparr>)"
  by (simp add: simulate_portfolio_def simulate_locals_def dip_sim_def ex_sim_def
      model_defs Let_def)


lemma dip_drawdown: "spec_max_drawdown [1000, 1100, 990] = 1 / 10"
  by (simp add: spec_max_drawdown_def drawdown_def running_peak_def upt_rec [of 0]
      upt_rec [of 1] upt_rec [of 2])

text \<open>
  Claim C5, as the code has it. For a portfolio value series of finite positive values
  (the values of a valid request on a cleaned table are such, see \<open>values_pos\<close>), the
  maximum drawdown that \<open>display_and_save_results\<close> shows is the greatest over all
  dates of \<open>(running_peak(date) - value(date)) / running_peak(date)\<close>; it lies between
  0 and 1, and it is 0 when the series never decreases. The code does not test the
  prices, and on a series with a value that is not positive the bounds need not hold.
\<close>

theorem max_drawdown_formula:
  assumes "display_and_save_results s dl = Inr r" and "portfolio_value s = Some pv"
    and "map snd pv = map Fin vs" and "\<forall>v\<in>set vs. 0 < v"
  shows "shown_max_drawdown r = Fin (spec_max_drawdown vs) \<and>
     0 \<le> spec_max_drawdown vs \<and> spec_max_drawdown vs \<le> 1 \<and>
     (sorted vs \<longrightarrow> shown_max_drawdown r = Fin 0)"
proof -
  have "pv \<noteq> []" using display_Inr(2) [OF assms(1,2)] .
  then have ne: "vs \<noteq> []" using assms(3) by auto
  have md: "shown_max_drawdown r = Fin (spec_max_drawdown vs)"
    using display_Inr(1) [OF assms(1,2)] max_drawdown_fin [OF assms(3) ne assms(4)] by simp
  show ?thesis
    using md spec_max_drawdown_range [OF ne assms(4)] by simp
qed

theorem max_drawdown_formula_witness:
  "\<exists>s' r. simulate_portfolio dip_sim = Inr s' \<and>
     display_and_save_results s' Raised = Inr r \<and>
     portfolio_value s' = Some [(0, Fin 1000), (1, Fin 1100), (2, Fin 990)] \<and>
     shown_max_drawdown r = Fin (1 / 10) \<and>
     0 \<le> spec_max_drawdown [1000, 1100, 990] \<and> spec_max_drawdown [1000, 1100, 990] \<le> 1"
proof -
  let ?s = "dip_sim\<lparr>portfolio_value := Some [(0, Fin 1000), (1, Fin 1100), (2, Fin 990)],
          sharpe_ratio := Some (sharpe_of (Fin ((99 / 100) powr 84 - 1))
            (Fin (sqrt (1 / 50) * sqrt 252))),
          best_stock := Some ''A'', worst_stock := Some ''A''\<rparr>"
  obtain r where r: "display_and_save_results ?s Raised = Inr r"
    by (simp add: display_and_save_results_def dip_sim_def ex_sim_def total_return_of_def
        iloc_last_def annual_return_of_def Let_def)
  have pv: "portfolio_value ?s = Some [(0, Fin 1000), (1, Fin 1100), (2, Fin 990)]"
    by simp
  have vs: "map snd [(0::nat, Fin 1000), (1, Fin 1100), (2, Fin 990)] = map Fin [1000, 1100, 990]"
    by simp
  have p: "\<forall>v\<in>set [1000, 1100, 990 :: real]. 0 < v" by simp
  show ?thesis
    using max_drawdown_formula [OF r pv vs p] r dip_simulated
    by (simp add: dip_drawdown)
qed

lemma neg_simulated: "simulate_portfolio neg_sim =
   Inr (neg_sim\<lparr>portfolio_value := Some [(0, Fin 1000), (1, Fin (- 500))],
          sharpe_ratio := Some (Fin 0), best_stock := Some ''B'', worst_stock := Some ''A''\<rparr>)"
  by (simp add: simulate_portfolio_def simulate_locals_def neg_sim_def neg_frame_def ex_sim_def
      model_defs Let_def)

text \<open>
  The claim as it is written fails on a series that is not positive. A table in which
  the price of A goes from 20 to -40 has no missing value, so \<open>fetch_data\<close> keeps
  it; the portfolio values are 1000 and -500, and the maximum drawdown shown is 3/2.
\<close>

theorem negative_price_drawdown:
  "fetch_data (ex_sim\<lparr>data := None\<rparr>) (Returned neg_frame) = (None, neg_sim) \<and>
   portfolio_value (projr (simulate_portfolio neg_sim)) =
     Some [(0, Fin 1000), (1, Fin (- 500))] \<and>
   map_sum id shown_max_drawdown
     (display_and_save_results (projr (simulate_portfolio neg_sim)) Raised) = Inr (Fin (3 / 2))"
proof -
  have "fetch_data (ex_sim\<lparr>data := None\<rparr>) (Returned neg_frame) = (None, neg_sim)"
    by (simp add: fetch_data_def neg_sim_def neg_frame_def ex_sim_def empty_frame_def
        isna_all_any_def isnan_def upt_rec dropna_frame_def complete_row_def)
  moreover have "max_drawdown_of [(a, Fin 1000), (b, Fin (- 500))] = Fin (3 / 2)" for a b
    by (simp add: max_drawdown_of_def cummax_def nanmax_def isnan_def f_sub_def Let_def)
  then have "map_sum id shown_max_drawdown
     (display_and_save_results (projr (simulate_portfolio neg_sim)) Raised) = Inr (Fin (3 / 2))"
    unfolding neg_simulated
    by (simp add: display_and_save_results_def neg_sim_def neg_frame_def
        ex_sim_def total_return_of_def iloc_last_def annual_return_of_def Let_def)
  ultimately show ?thesis by (simp add: neg_simulated)
qed

section \<open>Best and worst performer\<close>







lemma f_le_trans: "f_le a b \<Longrightarrow> f_le b c \<Longrightarrow> f_le a c"
  by (cases a; cases b; cases c) (auto simp: f_le_def isnan_def)

lemma f_less_not_nan: "f_less a b \<Longrightarrow> \<not> isnan a \<and> \<not> isnan b"
  by (cases a; cases b) (auto simp: isnan_def)



















section \<open>The value series\<close>

text \<open>
  When the table holds its columns in the order of the tickers, the value on each date
  is the sum of the specification.
\<close>

lemma index_of_nth:
  "distinct xs \<Longrightarrow> j < length xs \<Longrightarrow> index_of xs (xs ! j) = Some j"
proof (induction xs arbitrary: j)
  case Nil
  then show ?case by simp
next
  case (Cons x xs)
  then show ?case by (cases j) auto
qed

lemma value_series_aligned:
  assumes "simulate_locals s = Inr l" and "data s = Some f"
    and "valid_request s" and "clean_table f" and "columns f = tickers s"
  shows "portfolio l = spec_value_series f (tickers s) (shares l)"
proof -
  have srv: "serves f s" using assms(5) by (simp add: serves_def)
  have ne: "rows f \<noteq> []" using assms(4) by (auto simp: clean_table_def)
  have sub: "set (tickers s) \<subseteq> set (columns f)" using assms(5) by simp
  have sh: "shares l = map (\<lambda>wt. f_div (f_mul (initial_cash s) (fst wt)) (price f 0 (snd wt)))
            (zip (weights s) (tickers s))"
    using simulate_locals_Inr(1) [OF assms(1,2)] shares_of_eq [OF sub ne] by simp
  then have shp: "list_all pos (shares l)"
    using shares_pos [OF assms(3,4) srv] by simp
  have len: "length (shares l) = length (columns f)"
    using assms(3,5) by (auto simp: sh valid_request_def)
  have pv: "portfolio l = map (\<lambda>r. (fst r, nansum (map2 f_mul (snd r) (shares l)))) (rows f)"
    using simulate_locals_Inr(2) [OF assms(1,2)] len
    by (simp add: value_series_def mul_frame_def sum_axis1_def o_def)
  have dist: "distinct (tickers s)"
    using assms(4,5) by (auto simp: clean_table_def wf_frame_def)
  show ?thesis
    unfolding pv spec_value_series_def
  proof (rule nth_equalityI)
    show "length (map (\<lambda>r. (fst r, nansum (map2 f_mul (snd r) (shares l)))) (rows f)) =
        length (map (\<lambda>i. (fst (rows f ! i), spec_value f (tickers s) (shares l) i))
          [0..<length (rows f)])"
      by simp
  next
    fix i assume "i < length (map (\<lambda>r. (fst r, nansum (map2 f_mul (snd r) (shares l)))) (rows f))"
    then have i: "i < length (rows f)" by simp
    let ?r = "snd (rows f ! i)"
    have "rows f ! i \<in> set (rows f)" using i by simp
    then have rl: "length ?r = length (shares l)" "list_all pos ?r"
      using assms(4) len by (auto simp: clean_table_def wf_frame_def list_all_iff)
    have prod: "list_all pos (map2 f_mul ?r (shares l))"
      using rl shp by (auto simp: list_all_length pos_mul)
    then have "filter (\<lambda>x. \<not> isnan x) (map2 f_mul ?r (shares l)) = map2 f_mul ?r (shares l)"
      by (auto simp: filter_id_conv list_all_iff pos_iff isnan_def)
    then have ns: "nansum (map2 f_mul ?r (shares l)) = f_sum (map2 f_mul ?r (shares l))"
      by (simp add: nansum_def)
    have eq: "map2 f_mul ?r (shares l) =
        map (\<lambda>tx. f_mul (snd tx) (price f i (fst tx))) (zip (tickers s) (shares l))"
    proof (rule nth_equalityI)
      show "length (map2 f_mul ?r (shares l)) =
          length (map (\<lambda>tx. f_mul (snd tx) (price f i (fst tx))) (zip (tickers s) (shares l)))"
        using rl(1) len assms(5) by simp
    next
      fix j assume "j < length (map2 f_mul ?r (shares l))"
      then have j: "j < length (shares l)" "j < length ?r" "j < length (tickers s)"
        using rl(1) len assms(5) by auto
      have pr: "price f i (tickers s ! j) = ?r ! j"
        using index_of_nth [OF dist j(3)] by (simp add: price_def assms(5))
      obtain a where a: "?r ! j = Fin a" using rl(2) j(2) by (auto simp: list_all_length pos_iff)
      obtain b where b: "shares l ! j = Fin b" using shp j(1) by (auto simp: list_all_length pos_iff)
      show "map2 f_mul ?r (shares l) ! j =
          map (\<lambda>tx. f_mul (snd tx) (price f i (fst tx))) (zip (tickers s) (shares l)) ! j"
        using j by (simp add: pr a b mult.commute)
    qed
    have "nansum (map2 f_mul ?r (shares l)) = f_sum (map (\<lambda>tx. f_mul (snd tx)
        (price f i (fst tx))) (zip (tickers s) (shares l)))"
      using ns by (simp only: eq)
    then have "nansum (map2 f_mul ?r (shares l)) = spec_value f (tickers s) (shares l) i"
      by (simp only: spec_value_def)
    then show "map (\<lambda>r. (fst r, nansum (map2 f_mul (snd r) (shares l)))) (rows f) ! i =
        map (\<lambda>i. (fst (rows f ! i), spec_value f (tickers s) (shares l) i))
          [0..<length (rows f)] ! i"
      using i by simp
  qed
qed

text \<open>
  Claim C1 does not hold of the code when the columns of the table are in another order
  than the tickers. The shares are computed with each symbol's own first price, but
  \<open>data * shares\<close> lays the list of shares over the columns by position. For the
  tickers B, A on a table with the columns A, B the shares are 10 (of B) and 5 (of A),
  and the values are \<open>10 * 100 + 5 * 50 = 1250\<close> and \<open>10 * 110 + 5 * 55 = 1375\<close>, where
  the sum of \<open>shares[symbol] * price[date][symbol]\<close> is 1000 and 1100.
\<close>

theorem value_series_by_position:
  "simulate_locals swapped_sim =
     Inr \<lparr>shares = [Fin 10, Fin 5], portfolio = [(0, Fin 1250), (1, Fin 1375)],
          daily_returns = [(1, Fin (1 / 10))], total_return = Fin (3 / 8),
          annual_return = Fin ((11 / 8) powr 126 - 1), annual_vol = NaN,
          sharpe = Fin 0, individual_returns = [Fin 10, Fin 10],
          best = ''B'', worst = ''B''\<rparr> \<and>
   spec_value_series ex_frame [''B'', ''A''] [Fin 10, Fin 5] = [(0, Fin 1000), (1, Fin 1100)]"
  by (simp add: simulate_locals_def swapped_sim_def ex_sim_def ex_frame_def model_defs
      spec_value_series_def spec_value_def price_def upt_rec [of 0] upt_rec [of 1])

end
